theory Spec2Isabelle
  imports
    Complex_Main
    "HOL-Library.Log_Nat"
    "HOL-Library.Char_ord"
    "HOL-Library.List_Lexorder"
    "HOL-Library.Sublist"
    "HOL-Library.Multiset"
begin

section \<open>The expense ledger of \<^verbatim>\<open>src/app/layout.tsx\<close>\<close>

text \<open>
  The page component \<^verbatim>\<open>HomePage\<close> keeps a list of expenses, a draft form, a filter
  specification and the id being edited. Its handlers and derived values are embedded
  below as functions on that state. Values the component takes from the host
  (\<^verbatim>\<open>crypto.randomUUID()\<close>, \<^verbatim>\<open>Date.now()\<close>, today's date, the engine's
  \<^verbatim>\<open>Array.prototype.sort\<close>, \<^verbatim>\<open>Number::toString\<close>) are arguments of the functions that
  use them.
\<close>

subsection \<open>Strings\<close>

text \<open>
  A JavaScript string is a sequence of code units; the model has the code units
  \<^verbatim>\<open>U+0000\<close> to \<^verbatim>\<open>U+00FF\<close>, one \<^typ>\<open>char\<close> each. The relational operators on strings
  compare code units lexicographically, a proper prefix being smaller: the order of
  \<^theory_text>\<open>List_Lexorder\<close> over \<^theory_text>\<open>Char_ord\<close>.
\<close>

definition isWhiteSpace :: "char \<Rightarrow> bool" where
  \<comment> \<open>WhiteSpace and LineTerminator: TAB, LF, VT, FF, CR, SP, NBSP\<close>
  "isWhiteSpace c = (of_char c \<in> {9, 10, 11, 12, 13, 32, 160 :: nat})"

definition trim :: "string \<Rightarrow> string" where
  "trim s = rev (dropWhile isWhiteSpace (rev (dropWhile isWhiteSpace s)))"

definition toLowerChar :: "char \<Rightarrow> char" where
  \<comment> \<open>A to Z, and the capital letters of Latin-1 (all of C0 to DE but the multiplication sign)\<close>
  "toLowerChar c =
     (let n = of_char c :: nat
      in if (65 \<le> n \<and> n \<le> 90) \<or> (192 \<le> n \<and> n \<le> 222 \<and> n \<noteq> 215) then char_of (n + 32) else c)"

definition toLowerCase :: "string \<Rightarrow> string" where
  "toLowerCase s = map toLowerChar s"

fun includes_str :: "string \<Rightarrow> string \<Rightarrow> bool" where
  "includes_str [] sub = (sub = [])"
| "includes_str (c # cs) sub = (prefix sub (c # cs) \<or> includes_str cs sub)"

definition truthy :: "string option \<Rightarrow> bool" where
  \<comment> \<open>of a value of type \<^verbatim>\<open>string | null\<close>: null and the empty string are falsy\<close>
  "truthy v = (case v of None \<Rightarrow> False | Some s \<Rightarrow> s \<noteq> [])"

subsection \<open>Numbers\<close>

text \<open>
  A JavaScript number is an IEEE 754 binary64 value. \<open>Fin q\<close> is the finite value \<open>q\<close>;
  the two zeros are not told apart (no operation below can). Every arithmetic result
  is the exact result rounded to the nearest representable value, ties to even.
\<close>

datatype number = NaN | NegInf | Fin rat | PosInf

definition pow2 :: "int \<Rightarrow> rat" where
  "pow2 e = (if 0 \<le> e then 2 ^ nat e else 1 / 2 ^ nat (- e))"

definition pow10 :: "int \<Rightarrow> rat" where
  "pow10 e = (if 0 \<le> e then 10 ^ nat e else 1 / 10 ^ nat (- e))"

definition floor_log2 :: "rat \<Rightarrow> int" where
  \<comment> \<open>for \<open>0 < a\<close>, the \<open>e\<close> with \<open>2 ^ e \<le> a < 2 ^ (e + 1)\<close>\<close>
  "floor_log2 a = (if 1 \<le> a then bitlen \<lfloor>a\<rfloor> - 1 else - bitlen (\<lceil>1 / a\<rceil> - 1))"

definition round_half_even :: "rat \<Rightarrow> int" where
  "round_half_even x =
     (let f = \<lfloor>x\<rfloor>; d = x - of_int f
      in if d < 1 / 2 then f else if 1 / 2 < d then f + 1 else if even f then f else f + 1)"

definition round64 :: "rat \<Rightarrow> number" where
  \<comment> \<open>53 significant bits; exponents below -1022 are subnormal; 2 ^ 1024 and above overflow\<close>
  "round64 q =
     (if q = 0 then Fin 0
      else let a = \<bar>q\<bar>;
               e = max (floor_log2 a) (- 1022);
               u = pow2 (e - 52);
               r = of_int (round_half_even (a / u)) * u
           in if 2 ^ 1024 \<le> r then (if 0 < q then PosInf else NegInf) else Fin (sgn q * r))"

definition isNaN :: "number \<Rightarrow> bool" where
  "isNaN x = (x = NaN)"

fun num_add :: "number \<Rightarrow> number \<Rightarrow> number" where
  "num_add NaN _ = NaN"
| "num_add _ NaN = NaN"
| "num_add PosInf NegInf = NaN"
| "num_add NegInf PosInf = NaN"
| "num_add PosInf _ = PosInf"
| "num_add _ PosInf = PosInf"
| "num_add NegInf _ = NegInf"
| "num_add _ NegInf = NegInf"
| "num_add (Fin a) (Fin b) = round64 (a + b)"

fun num_less :: "number \<Rightarrow> number \<Rightarrow> bool" where
  \<comment> \<open>\<^verbatim>\<open>x < y\<close>; every comparison with NaN is false\<close>
  "num_less NaN _ = False"
| "num_less _ NaN = False"
| "num_less _ NegInf = False"
| "num_less NegInf _ = True"
| "num_less PosInf _ = False"
| "num_less _ PosInf = True"
| "num_less (Fin a) (Fin b) = (a < b)"

definition num_le :: "number \<Rightarrow> number \<Rightarrow> bool" where
  \<comment> \<open>\<^verbatim>\<open>x <= y\<close>\<close>
  "num_le x y = (x \<noteq> NaN \<and> y \<noteq> NaN \<and> (x = y \<or> num_less x y))"

definition num_gt :: "number \<Rightarrow> number \<Rightarrow> bool" where
  \<comment> \<open>\<^verbatim>\<open>x > y\<close>\<close>
  "num_gt x y = num_less y x"

subsubsection \<open>\<^verbatim>\<open>Number(string)\<close>\<close>

definition isDigit :: "char \<Rightarrow> bool" where
  "isDigit c = (48 \<le> (of_char c :: nat) \<and> (of_char c :: nat) \<le> 57)"

definition hexVal :: "char \<Rightarrow> nat option" where
  "hexVal c =
     (let n = of_char c :: nat
      in if 48 \<le> n \<and> n \<le> 57 then Some (n - 48)
         else if 97 \<le> n \<and> n \<le> 102 then Some (n - 87)
         else if 65 \<le> n \<and> n \<le> 70 then Some (n - 55)
         else None)"

definition digitsVal :: "nat \<Rightarrow> string \<Rightarrow> nat option" where
  \<comment> \<open>the value of a non-empty run of digits of the given radix\<close>
  "digitsVal radix ds =
     (if ds = [] then None
      else foldl (\<lambda>acc c. case (acc, hexVal c) of
                     (Some a, Some d) \<Rightarrow> if d < radix then Some (radix * a + d) else None
                   | _ \<Rightarrow> None) (Some 0) ds)"

definition parseNonDecimal :: "string \<Rightarrow> nat option" where
  \<comment> \<open>\<^verbatim>\<open>0x\<close>, \<^verbatim>\<open>0o\<close> and \<^verbatim>\<open>0b\<close> literals, which take no sign\<close>
  "parseNonDecimal s =
     (case s of
        z # x # ds \<Rightarrow>
          if z \<noteq> CHR ''0'' then None
          else if x = CHR ''x'' \<or> x = CHR ''X'' then digitsVal 16 ds
          else if x = CHR ''o'' \<or> x = CHR ''O'' then digitsVal 8 ds
          else if x = CHR ''b'' \<or> x = CHR ''B'' then digitsVal 2 ds
          else None
      | _ \<Rightarrow> None)"

definition parseSign :: "string \<Rightarrow> bool \<times> string" where
  "parseSign s =
     (case s of
        c # r \<Rightarrow> if c = CHR ''-'' then (True, r) else if c = CHR ''+'' then (False, r) else (False, s)
      | [] \<Rightarrow> (False, []))"

definition parseExponent :: "string \<Rightarrow> int option" where
  \<comment> \<open>the rest of a decimal literal: nothing, or an exponent part\<close>
  "parseExponent s =
     (case s of
        [] \<Rightarrow> Some 0
      | c # r \<Rightarrow>
          if c = CHR ''e'' \<or> c = CHR ''E'' then
            (case parseSign r of (neg, ds) \<Rightarrow>
               (case digitsVal 10 ds of
                  None \<Rightarrow> None
                | Some n \<Rightarrow> Some (if neg then - int n else int n)))
          else None)"

definition parseUnsignedDecimal :: "string \<Rightarrow> rat option" where
  \<comment> \<open>digits, an optional point and digits, an optional exponent; a digit is required\<close>
  "parseUnsignedDecimal s =
     (let ip = takeWhile isDigit s;
          r1 = dropWhile isDigit s;
          dot = (r1 \<noteq> [] \<and> hd r1 = CHR ''.'');
          fp = (if dot then takeWhile isDigit (tl r1) else []);
          r2 = (if dot then dropWhile isDigit (tl r1) else r1)
      in if ip = [] \<and> fp = [] then None
         else case (digitsVal 10 (ip @ fp), parseExponent r2) of
                (Some m, Some ex) \<Rightarrow> Some (of_nat m * pow10 (ex - int (length fp)))
              | _ \<Rightarrow> None)"

definition Number :: "string \<Rightarrow> number" where
  \<comment> \<open>StringToNumber: blank is 0, a malformed literal is NaN\<close>
  "Number str =
     (let s = trim str
      in if s = [] then Fin 0
         else case parseNonDecimal s of
                Some n \<Rightarrow> round64 (of_nat n)
              | None \<Rightarrow>
                  (case parseSign s of (neg, u) \<Rightarrow>
                     if u = ''Infinity'' then (if neg then NegInf else PosInf)
                     else case parseUnsignedDecimal u of
                            None \<Rightarrow> NaN
                          | Some q \<Rightarrow> round64 (if neg then - q else q)))"

subsubsection \<open>\<^verbatim>\<open>Number.prototype.toFixed(2)\<close>\<close>

fun showNat :: "nat \<Rightarrow> string" where
  "showNat n = (if n < 10 then [char_of (48 + n)] else showNat (n div 10) @ [char_of (48 + n mod 10)])"

declare showNat.simps [simp del]

definition fixed2 :: "rat \<Rightarrow> string" where
  \<comment> \<open>for \<open>0 \<le> a\<close>: the integer \<open>n\<close> nearest to \<open>100 * a\<close> (the larger of two), written with
      at least three digits and a point before the last two\<close>
  "fixed2 a =
     (let n = nat \<lfloor>a * 100 + 1 / 2\<rfloor>;
          m = showNat n;
          ds = replicate (3 - length m) (CHR ''0'') @ m;
          k = length ds
      in take (k - 2) ds @ ''.'' @ drop (k - 2) ds)"

definition toFixed2 :: "(number \<Rightarrow> string) \<Rightarrow> number \<Rightarrow> string" where
  \<comment> \<open>\<open>numToString\<close> is \<^verbatim>\<open>Number::toString\<close>, which toFixed returns at 10^21 and above\<close>
  "toFixed2 numToString x =
     (case x of
        NaN \<Rightarrow> ''NaN''
      | PosInf \<Rightarrow> ''Infinity''
      | NegInf \<Rightarrow> ''-Infinity''
      | Fin q \<Rightarrow>
          if 10 ^ 21 \<le> \<bar>q\<bar> then numToString x
          else if q < 0 then ''-'' @ fixed2 (- q)
          else fixed2 q)"

subsection \<open>The data model (\<^verbatim>\<open>lib/types\<close>)\<close>

datatype Category = Food | Transportation | Entertainment | Shopping | Bills | Other

definition CATEGORIES :: "Category list" where
  "CATEGORIES = [Food, Transportation, Entertainment, Shopping, Bills, Other]"

fun categoryName :: "Category \<Rightarrow> string" where
  \<comment> \<open>a category is its name, a string of the union type\<close>
  "categoryName Food = ''Food''"
| "categoryName Transportation = ''Transportation''"
| "categoryName Entertainment = ''Entertainment''"
| "categoryName Shopping = ''Shopping''"
| "categoryName Bills = ''Bills''"
| "categoryName Other = ''Other''"

record Expense =
  expense_id :: string
  description :: string
  amount :: number
  category :: Category
  date :: string
  createdAt :: number

datatype CategoryFilter = AllCategories | Only Category
  \<comment> \<open>\<^verbatim>\<open>Category | "All"\<close>\<close>

record Filters =
  search :: string
  filter_category :: CategoryFilter
  filter_from :: string
  filter_to :: string

record FormState =
  form_description :: string
  form_amount :: string
  form_category :: Category
  form_date :: string

datatype Status = NoStatus | Success string | Error string

record State =
  expenses :: "Expense list"
  form :: FormState
  filters :: Filters
  editingId :: "string option"
  status :: Status

subsection \<open>The mutator: \<^verbatim>\<open>validateForm\<close>, \<^verbatim>\<open>handleSubmit\<close>, \<^verbatim>\<open>handleDelete\<close>\<close>

definition initialForm :: "string \<Rightarrow> FormState" where
  \<comment> \<open>\<open>today\<close> is \<^verbatim>\<open>new Date().toISOString().slice(0, 10)\<close>\<close>
  "initialForm today =
     \<lparr>form_description = [], form_amount = [], form_category = Food, form_date = today\<rparr>"

definition resetForm :: "string \<Rightarrow> State \<Rightarrow> State" where
  "resetForm today s = s\<lparr>form := initialForm today, editingId := None\<rparr>"

definition validateForm :: "FormState \<Rightarrow> string option" where
  "validateForm f =
     (let amount = Number (form_amount f)
      in if trim (form_description f) = [] then Some ''Add a description''
         else if form_date f = [] then Some ''Pick a date''
         else if isNaN amount \<or> num_le amount (Fin 0) then Some ''Enter a valid amount''
         else None)"

definition updateItem :: "string \<Rightarrow> FormState \<Rightarrow> number \<Rightarrow> Expense \<Rightarrow> Expense" where
  \<comment> \<open>\<^verbatim>\<open>item.id === editingId ? { ...item, ...form, amount } : item\<close>\<close>
  "updateItem eid f amt item =
     (if expense_id item = eid
      then item\<lparr>description := form_description f, amount := amt,
                category := form_category f, date := form_date f\<rparr>
      else item)"

definition newExpense :: "string \<Rightarrow> number \<Rightarrow> FormState \<Rightarrow> number \<Rightarrow> Expense" where
  "newExpense uuid now f amt =
     \<lparr>expense_id = uuid, description = trim (form_description f), amount = amt,
      category = form_category f, date = form_date f, createdAt = now\<rparr>"

definition handleSubmit :: "string \<Rightarrow> number \<Rightarrow> string \<Rightarrow> State \<Rightarrow> State" where
  \<comment> \<open>\<open>uuid\<close> is \<^verbatim>\<open>crypto.randomUUID()\<close>, \<open>now\<close> is \<^verbatim>\<open>Date.now()\<close>; the timer that clears
      the status 2200 ms later is not part of the model\<close>
  "handleSubmit uuid now today s =
     (let validationError = validateForm (form s)
      in if truthy validationError then s\<lparr>status := Error (the validationError)\<rparr>
         else let amt = Number (form_amount (form s))
              in resetForm today
                   (if truthy (editingId s)
                    then s\<lparr>expenses := map (updateItem (the (editingId s)) (form s) amt) (expenses s),
                           status := Success ''Expense updated''\<rparr>
                    else s\<lparr>expenses := newExpense uuid now (form s) amt # expenses s,
                           status := Success ''Expense added''\<rparr>))"

definition handleDelete :: "string \<Rightarrow> string \<Rightarrow> State \<Rightarrow> State" where
  "handleDelete today i s =
     (let s' = s\<lparr>expenses := filter (\<lambda>expense. expense_id expense \<noteq> i) (expenses s)\<rparr>
      in if editingId s = Some i then resetForm today s' else s')"

subsection \<open>The query engine\<close>

type_synonym 'a array_sort = "('a \<Rightarrow> 'a \<Rightarrow> int) \<Rightarrow> 'a list \<Rightarrow> 'a list"
  \<comment> \<open>\<^verbatim>\<open>Array.prototype.sort\<close> with a comparator, as the engine running the page has it\<close>

definition matchesFilters :: "Filters \<Rightarrow> Expense \<Rightarrow> bool" where
  "matchesFilters fs expense =
     (let matchesCategory =
            (if filter_category fs = AllCategories then True
             else Only (category expense) = filter_category fs);
          matchesSearch =
            includes_str (toLowerCase (description expense)) (toLowerCase (trim (search fs)));
          afterFrom = (if filter_from fs \<noteq> [] then filter_from fs \<le> date expense else True);
          beforeTo = (if filter_to fs \<noteq> [] then date expense \<le> filter_to fs else True)
      in matchesCategory \<and> matchesSearch \<and> afterFrom \<and> beforeTo)"

definition dateCompare :: "Expense \<Rightarrow> Expense \<Rightarrow> int" where
  \<comment> \<open>\<^verbatim>\<open>(a, b) => (a.date < b.date ? 1 : -1)\<close>\<close>
  "dateCompare a b = (if date a < date b then 1 else - 1)"

definition filteredExpenses :: "Expense array_sort \<Rightarrow> Expense list \<Rightarrow> Filters \<Rightarrow> Expense list" where
  "filteredExpenses srt exps fs = srt dateCompare (filter (matchesFilters fs) exps)"

record CategoryTotal =
  total_category :: Category
  total :: number

definition sumAmounts :: "Expense list \<Rightarrow> number" where
  \<comment> \<open>\<^verbatim>\<open>.reduce((sum, expense) => sum + expense.amount, 0)\<close>\<close>
  "sumAmounts exps = foldl (\<lambda>sum expense. num_add sum (amount expense)) (Fin 0) exps"

definition totalsByCategory :: "Expense list \<Rightarrow> CategoryTotal list" where
  "totalsByCategory exps =
     map (\<lambda>c. \<lparr>total_category = c,
               total = sumAmounts (filter (\<lambda>expense. category expense = c) exps)\<rparr>) CATEGORIES"

definition totalSpent :: "Expense list \<Rightarrow> number" where
  "totalSpent exps = sumAmounts exps"

definition larger :: "CategoryTotal \<Rightarrow> CategoryTotal \<Rightarrow> CategoryTotal" where
  \<comment> \<open>\<^verbatim>\<open>(top, current) => (current.total > (top?.total ?? 0) ? current : top)\<close>, where
      \<^verbatim>\<open>top?.total ?? 0\<close> is \<^verbatim>\<open>top.total\<close>: the accumulator is never null and always has a
      total\<close>
  "larger best current = (if num_gt (total current) (total best) then current else best)"

definition topCategory :: "CategoryTotal list \<Rightarrow> CategoryTotal" where
  "topCategory totals = foldl larger \<lparr>total_category = Food, total = Fin 0\<rparr> totals"

subsection \<open>The exporter\<close>

definition replaceQuotes :: "string \<Rightarrow> string" where
  \<comment> \<open>\<^verbatim>\<open>cell.replace(/\"/g, '"')\<close>: every double quote is replaced by the replacement string,
      which is one double quote\<close>
  "replaceQuotes cell = concat (map (\<lambda>c. if c = CHR 0x22 then [CHR 0x22] else [c]) cell)"

definition quoteCell :: "string \<Rightarrow> string" where
  "quoteCell cell = [CHR 0x22] @ replaceQuotes cell @ [CHR 0x22]"

fun join :: "string \<Rightarrow> string list \<Rightarrow> string" where
  "join sep [] = []"
| "join sep [x] = x"
| "join sep (x # y # ys) = x @ sep @ join sep (y # ys)"

definition expenseRow :: "(number \<Rightarrow> string) \<Rightarrow> Expense \<Rightarrow> string list" where
  "expenseRow numToString expense =
     [description expense, toFixed2 numToString (amount expense),
      categoryName (category expense), date expense]"

definition csvText :: "string list list \<Rightarrow> string" where
  "csvText table = join [CHR 0x0A] (map (\<lambda>row. join '','' (map quoteCell row)) table)"

definition exportCsv ::
  "Expense array_sort \<Rightarrow> (number \<Rightarrow> string) \<Rightarrow> Expense list \<Rightarrow> Filters \<Rightarrow> string option" where
  \<comment> \<open>\<open>None\<close>: the early return, nothing is downloaded; \<open>Some csv\<close>: the text of the
      downloaded \<^verbatim>\<open>expenses.csv\<close>\<close>
  "exportCsv srt numToString exps fs =
     (if length exps = 0 then None
      else let header = [''Description'', ''Amount'', ''Category'', ''Date''];
               rows = map (expenseRow numToString) (filteredExpenses srt exps fs)
           in Some (csvText (header # rows)))"

subsection \<open>A sort of the host: V8 on short arrays\<close>

text \<open>
  V8 (Chrome, Node.js) sorts an array of fewer than 64 elements as one run: it finds the
  run at the start of the array, comparing each element with the one before it
  (\<^verbatim>\<open>comparefn(elements[i], elements[i - 1])\<close>), reverses it when it is descending,
  and inserts every further element by binary search
  (\<^verbatim>\<open>comparefn(pivot, elements[mid]) < 0\<close> moves left).
\<close>

fun runLength :: "('a \<Rightarrow> 'a \<Rightarrow> int) \<Rightarrow> bool \<Rightarrow> 'a \<Rightarrow> 'a list \<Rightarrow> nat" where
  \<comment> \<open>how many of the elements after \<open>prev\<close> continue the run\<close>
  "runLength cmp desc prev [] = 0"
| "runLength cmp desc prev (x # xs) =
     (let order = cmp x prev
      in if (if desc then 0 \<le> order else order < 0) then 0
         else Suc (runLength cmp desc x xs))"

function binarySearch :: "('a \<Rightarrow> 'a \<Rightarrow> int) \<Rightarrow> 'a \<Rightarrow> 'a list \<Rightarrow> nat \<Rightarrow> nat \<Rightarrow> nat" where
  "binarySearch cmp pivot xs left right =
     (if left < right
      then let mid = left + (right - left) div 2
           in if cmp pivot (xs ! mid) < 0 then binarySearch cmp pivot xs left mid
              else binarySearch cmp pivot xs (mid + 1) right
      else left)"
  by pat_completeness auto
termination
  by (relation "measure (\<lambda>(cmp, pivot, xs, left, right). right - left)") auto

declare binarySearch.simps [simp del]

definition insertPivot :: "('a \<Rightarrow> 'a \<Rightarrow> int) \<Rightarrow> 'a list \<Rightarrow> 'a \<Rightarrow> 'a list" where
  "insertPivot cmp arr pivot =
     (let left = binarySearch cmp pivot arr 0 (length arr)
      in take left arr @ [pivot] @ drop left arr)"

definition v8ShortSort :: "'a array_sort" where
  "v8ShortSort cmp xs =
     (case xs of
        [] \<Rightarrow> []
      | [x] \<Rightarrow> [x]
      | x # y # rest \<Rightarrow>
          let desc = (cmp y x < 0);
              n = 2 + runLength cmp desc y rest;
              run = (if desc then rev (take n xs) else take n xs)
          in foldl (insertPivot cmp) run (drop n xs))"

subsection \<open>Notions for stating the properties\<close>

text \<open>
  These are not functions of the component: the sum of a list of totals, the amounts as
  exact rational numbers, and a row of the export as the specification writes it.
\<close>

definition sumTotals :: "CategoryTotal list \<Rightarrow> number" where
  \<comment> \<open>the totals added up from 0 in their order, the way the component adds amounts\<close>
  "sumTotals ts = foldl (\<lambda>sum t. num_add sum (total t)) (Fin 0) ts"

definition isFinite :: "number \<Rightarrow> bool" where
  "isFinite x = (case x of Fin q \<Rightarrow> True | _ \<Rightarrow> False)"

definition valueOf :: "number \<Rightarrow> rat" where
  "valueOf x = (case x of Fin q \<Rightarrow> q | _ \<Rightarrow> 0)"

definition exactSum :: "Expense list \<Rightarrow> rat" where
  \<comment> \<open>the sum of the amounts as rational numbers, with no rounding\<close>
  "exactSum ys = sum_list (map (\<lambda>e. valueOf (amount e)) ys)"

definition exactlySummable :: "Expense list \<Rightarrow> bool" where
  \<comment> \<open>the amounts are finite and the exact sum of any of them is a number: no addition
      of amounts of the collection rounds, in whatever grouping\<close>
  "exactlySummable exps =
     (\<forall>ys \<in> set (subseqs exps).
        list_all (\<lambda>e. isFinite (amount e)) ys \<and> round64 (exactSum ys) = Fin (exactSum ys))"

definition rowLine :: "(number \<Rightarrow> string) \<Rightarrow> Expense \<Rightarrow> string" where
  \<comment> \<open>a data row as the specification describes it: the four fields of the record, each
      between double quotes, separated by commas\<close>
  \<open>rowLine numToString e =
     ''"'' @ description e @ ''","'' @ toFixed2 numToString (amount e) @ ''","'' @
     categoryName (category e) @ ''","'' @ date e @ ''"''\<close>

subsection \<open>The scenario of the specification\<close>

definition coffee :: Expense where
  "coffee =
     \<lparr>expense_id = ''id-coffee'', description = ''Coffee'', amount = Fin (9 / 2),
      category = Food, date = ''2024-01-05'', createdAt = Fin 1704445200000\<rparr>"

definition bus :: Expense where
  "bus =
     \<lparr>expense_id = ''id-bus'', description = ''Bus'', amount = Fin (11 / 4),
      category = Transportation, date = ''2024-01-06'', createdAt = Fin 1704531600000\<rparr>"

definition tea :: Expense where
  \<comment> \<open>a second expense of the day of \<open>coffee\<close>\<close>
  "tea =
     \<lparr>expense_id = ''id-tea'', description = ''Tea'', amount = Fin 3,
      category = Food, date = ''2024-01-05'', createdAt = Fin 1704448800000\<rparr>"

definition snack :: Expense where
  "snack =
     \<lparr>expense_id = ''id-snack'', description = ''Snack'', amount = Number ''0.1'',
      category = Food, date = ''2024-01-07'', createdAt = Fin 1704618000000\<rparr>"

definition fare :: Expense where
  "fare =
     \<lparr>expense_id = ''id-fare'', description = ''Fare'', amount = Number ''0.1'',
      category = Transportation, date = ''2024-01-07'', createdAt = Fin 1704621600000\<rparr>"

definition lunch :: Expense where
  "lunch =
     \<lparr>expense_id = ''id-lunch'', description = ''Lunch'', amount = Number ''0.4'',
      category = Food, date = ''2024-01-07'', createdAt = Fin 1704625200000\<rparr>"

definition noFilters :: Filters where
  \<comment> \<open>the initial filters of the component\<close>
  "noFilters = \<lparr>search = [], filter_category = AllCategories, filter_from = [], filter_to = []\<rparr>"

definition draft :: "string \<Rightarrow> string \<Rightarrow> Category \<Rightarrow> string \<Rightarrow> FormState" where
  "draft d a c t = \<lparr>form_description = d, form_amount = a, form_category = c, form_date = t\<rparr>"

definition page :: "Expense list \<Rightarrow> FormState \<Rightarrow> string option \<Rightarrow> State" where
  "page exps f eid =
     \<lparr>expenses = exps, form = f, filters = noFilters, editingId = eid, status = NoStatus\<rparr>"

definition cofFilters :: Filters where
  "cofFilters =
     \<lparr>search = '' COF '', filter_category = Only Food,
      filter_from = ''2024-01-01'', filter_to = ''2024-01-31''\<rparr>"

definition onlyBills :: Filters where
  "onlyBills = \<lparr>search = [], filter_category = Only Bills, filter_from = [], filter_to = []\<rparr>"

definition taxiSearch :: Filters where
  \<comment> \<open>a search text that no description of the scenario contains\<close>
  "taxiSearch = \<lparr>search = ''taxi'', filter_category = AllCategories, filter_from = [], filter_to = []\<rparr>"

section \<open>Evaluating the arithmetic\<close>

lemma round64_code [code]:
  \<comment> \<open>the same function, with the overflow bound in a form that evaluates in 64 multiplications\<close>
  "round64 q =
     (if q = 0 then Fin 0
      else let a = \<bar>q\<bar>;
               e = max (floor_log2 a) (- 1022);
               u = pow2 (e - 52);
               r = of_int (round_half_even (a / u)) * u
           in if (2 ^ 32) ^ 32 \<le> r then (if 0 < q then PosInf else NegInf) else Fin (sgn q * r))"
proof -
  have "(2::rat) ^ 1024 = (2 ^ 32) ^ 32"
    by (simp only: power_mult [symmetric]) simp
  then show ?thesis
    by (simp only: round64_def)
qed

section \<open>Validation and submission\<close>

lemma amount_invalid_iff: "(isNaN x \<or> num_le x (Fin 0)) = (\<not> num_gt x (Fin 0))"
  by (cases x) (auto simp: isNaN_def num_le_def num_gt_def)

lemma validateForm_cases:
  "validateForm f =
     (if trim (form_description f) = [] then Some ''Add a description''
      else if form_date f = [] then Some ''Pick a date''
      else if \<not> num_gt (Number (form_amount f)) (Fin 0) then Some ''Enter a valid amount''
      else None)"
  unfolding validateForm_def Let_def amount_invalid_iff by simp

lemma truthy_validateForm: "truthy (validateForm f) = (validateForm f \<noteq> None)"
  by (simp add: validateForm_cases truthy_def)

lemma Number_empty: "Number [] = Fin 0"
  by (simp add: Number_def trim_def)

lemma handleSubmit_invalid:
  "validateForm (form s) \<noteq> None \<Longrightarrow>
     handleSubmit uuid now today s = s\<lparr>status := Error (the (validateForm (form s)))\<rparr>"
  by (simp add: handleSubmit_def Let_def truthy_validateForm)

lemma handleSubmit_update:
  "validateForm (form s) = None \<Longrightarrow> editingId s = Some eid \<Longrightarrow> eid \<noteq> [] \<Longrightarrow>
     handleSubmit uuid now today s =
       resetForm today
         (s\<lparr>expenses := map (updateItem eid (form s) (Number (form_amount (form s)))) (expenses s),
            status := Success ''Expense updated''\<rparr>)"
  by (simp add: handleSubmit_def Let_def truthy_def)

lemma handleSubmit_create:
  "validateForm (form s) = None \<Longrightarrow> \<not> truthy (editingId s) \<Longrightarrow>
     handleSubmit uuid now today s =
       resetForm today
         (s\<lparr>expenses := newExpense uuid now (form s) (Number (form_amount (form s))) # expenses s,
            status := Success ''Expense added''\<rparr>)"
  by (simp add: handleSubmit_def Let_def truthy_def)

lemma trim_blank: "trim ''  '' = []"
  by (simp add: trim_def isWhiteSpace_def)

lemma trim_Rent: "trim ''Rent'' = ''Rent''"
  by (simp add: trim_def isWhiteSpace_def)

lemma trim_padded_Coffee: "trim ''  Coffee  '' = ''Coffee''"
  by (simp add: trim_def isWhiteSpace_def)

lemma Number_minus5: "Number ''-5'' = Fin (- 5)"
  by code_simp

lemma Number_10: "Number ''10'' = Fin 10"
  by code_simp

lemma Number_abc: "Number ''abc'' = NaN"
  by code_simp

lemma Number_4_50: "Number ''4.50'' = Fin (9 / 2)"
  by code_simp

lemma Number_5: "Number ''5'' = Fin 5"
  by code_simp

lemma trim_Latte: "trim ''Latte'' = ''Latte''"
  by (simp add: trim_def isWhiteSpace_def)

lemma trim_Coffee: "trim ''Coffee'' = ''Coffee''"
  by (simp add: trim_def isWhiteSpace_def)

text \<open>
  \<^bold>\<open>C3.\<close> \<^verbatim>\<open>validateForm\<close> fails with ``Add a description'' (EmptyDescription) when the
  description is blank after trimming, with ``Pick a date'' (MissingDate) when the date
  is the empty string (and the description is not blank: the description is checked
  first), and with ``Enter a valid amount'' (InvalidAmount) when \<^verbatim>\<open>Number(form.amount)\<close>
  is NaN or not greater than 0 (and the two earlier checks pass); it returns null
  otherwise. When it fails, \<^verbatim>\<open>handleSubmit\<close> sets the error status and changes nothing
  else: the collection, the draft and the id being edited are as before.
\<close>

theorem validation_rules:
  "(trim (form_description (form s)) = [] \<longrightarrow> validateForm (form s) = Some ''Add a description'') \<and>
   (form_date (form s) = [] \<longrightarrow>
      validateForm (form s) =
        (if trim (form_description (form s)) = [] then Some ''Add a description''
         else Some ''Pick a date'')) \<and>
   (isNaN (Number (form_amount (form s))) \<or> \<not> num_gt (Number (form_amount (form s))) (Fin 0) \<longrightarrow>
      validateForm (form s) \<noteq> None \<and>
      (trim (form_description (form s)) \<noteq> [] \<and> form_date (form s) \<noteq> [] \<longrightarrow>
         validateForm (form s) = Some ''Enter a valid amount'')) \<and>
   (trim (form_description (form s)) \<noteq> [] \<and> form_date (form s) \<noteq> [] \<and>
    \<not> isNaN (Number (form_amount (form s))) \<and> num_gt (Number (form_amount (form s))) (Fin 0) \<longrightarrow>
      validateForm (form s) = None) \<and>
   (validateForm (form s) \<noteq> None \<longrightarrow>
      expenses (handleSubmit uuid now today s) = expenses s \<and>
      form (handleSubmit uuid now today s) = form s \<and>
      editingId (handleSubmit uuid now today s) = editingId s \<and>
      status (handleSubmit uuid now today s) = Error (the (validateForm (form s))))"
proof -
  have nan: "isNaN x \<Longrightarrow> \<not> num_gt x (Fin 0)" for x
    by (simp add: isNaN_def num_gt_def)
  show ?thesis
    using nan [of "Number (form_amount (form s))"]
    by (auto simp: validateForm_cases handleSubmit_invalid)
qed

text \<open>
  The two failing scenarios of the specification (a blank description; the amount -5),
  a malformed amount, a missing date, and a valid draft, each submitted on the
  collection of the scenario.
\<close>

theorem validation_rules_witness:
  "validateForm (draft ''  '' ''10'' Food ''2024-01-01'') = Some ''Add a description'' \<and>
   expenses (handleSubmit ''u1'' (Fin 0) ''2024-01-08''
     (page [coffee, bus] (draft ''  '' ''10'' Food ''2024-01-01'') None)) = [coffee, bus] \<and>
   validateForm (draft ''Rent'' ''-5'' Bills ''2024-01-01'') = Some ''Enter a valid amount'' \<and>
   expenses (handleSubmit ''u1'' (Fin 0) ''2024-01-08''
     (page [coffee, bus] (draft ''Rent'' ''-5'' Bills ''2024-01-01'') None)) = [coffee, bus] \<and>
   validateForm (draft ''Rent'' ''abc'' Bills ''2024-01-01'') = Some ''Enter a valid amount'' \<and>
   validateForm (draft ''Rent'' ''10'' Bills []) = Some ''Pick a date'' \<and>
   validateForm (draft ''Rent'' ''10'' Bills ''2024-01-01'') = None"
  using
    validation_rules [of "page [coffee, bus] (draft ''  '' ''10'' Food ''2024-01-01'') None"
      "''u1''" "Fin 0" "''2024-01-08''"]
    validation_rules [of "page [coffee, bus] (draft ''Rent'' ''-5'' Bills ''2024-01-01'') None"
      "''u1''" "Fin 0" "''2024-01-08''"]
    validation_rules [of "page [coffee, bus] (draft ''Rent'' ''abc'' Bills ''2024-01-01'') None"]
    validation_rules [of "page [coffee, bus] (draft ''Rent'' ''10'' Bills []) None"]
    validation_rules [of "page [coffee, bus] (draft ''Rent'' ''10'' Bills ''2024-01-01'') None"]
  by (simp add: page_def draft_def trim_blank trim_Rent Number_minus5 Number_10 Number_abc
      isNaN_def num_gt_def)

text \<open>
  \<^bold>\<open>C10.\<close> A draft that breaks several rules gets the message of the first rule it breaks,
  in the order description, date, amount. A draft whose description and date are valid
  and whose amount is the empty string gets ``Enter a valid amount'': the empty string
  converts to 0, and 0 is not greater than 0.
\<close>

theorem validateForm_priority:
  "(trim (form_description f) = [] \<longrightarrow> validateForm f = Some ''Add a description'') \<and>
   (trim (form_description f) \<noteq> [] \<and> form_date f = [] \<longrightarrow> validateForm f = Some ''Pick a date'') \<and>
   (trim (form_description f) \<noteq> [] \<and> form_date f \<noteq> [] \<and>
    \<not> num_gt (Number (form_amount f)) (Fin 0) \<longrightarrow> validateForm f = Some ''Enter a valid amount'') \<and>
   (trim (form_description f) \<noteq> [] \<and> form_date f \<noteq> [] \<and> form_amount f = [] \<longrightarrow>
      Number (form_amount f) = Fin 0 \<and> \<not> num_gt (Number (form_amount f)) (Fin 0) \<and>
      validateForm f = Some ''Enter a valid amount'')"
  by (simp add: validateForm_cases Number_empty num_gt_def)

theorem validateForm_priority_witness:
  "validateForm (draft ''  '' ''-5'' Food []) = Some ''Add a description'' \<and>
   validateForm (draft ''Rent'' ''-5'' Bills []) = Some ''Pick a date'' \<and>
   validateForm (draft ''Rent'' ''-5'' Bills ''2024-01-01'') = Some ''Enter a valid amount'' \<and>
   validateForm (draft ''Rent'' [] Bills ''2024-01-01'') = Some ''Enter a valid amount''"
  using
    validateForm_priority [of "draft ''  '' ''-5'' Food []"]
    validateForm_priority [of "draft ''Rent'' ''-5'' Bills []"]
    validateForm_priority [of "draft ''Rent'' ''-5'' Bills ''2024-01-01''"]
    validateForm_priority [of "draft ''Rent'' [] Bills ''2024-01-01''"]
  by (simp add: draft_def trim_blank trim_Rent Number_minus5 num_gt_def)

section \<open>Update\<close>

text \<open>
  \<^bold>\<open>C5.\<close> Submitting a valid draft while a (non-empty) id is being edited maps the
  collection record by record: a record with that id keeps its \<^verbatim>\<open>id\<close> and
  \<^verbatim>\<open>createdAt\<close> and takes the description, the amount (\<^verbatim>\<open>Number(form.amount)\<close>), the
  category and the date of the draft; every other record is unchanged; if no record
  has the id, the collection is unchanged; and if the draft holds the current values of
  the record with that id (ids being unique), the collection is unchanged.
\<close>

theorem update_frame:
  assumes valid: "validateForm (form s) = None"
    and editing: "editingId s = Some eid" "eid \<noteq> []"
  shows "length (expenses (handleSubmit uuid now today s)) = length (expenses s) \<and>
         (\<forall>i < length (expenses s).
           (expense_id (expenses s ! i) = eid \<longrightarrow>
              expense_id (expenses (handleSubmit uuid now today s) ! i) = expense_id (expenses s ! i) \<and>
              createdAt (expenses (handleSubmit uuid now today s) ! i) = createdAt (expenses s ! i) \<and>
              description (expenses (handleSubmit uuid now today s) ! i) = form_description (form s) \<and>
              amount (expenses (handleSubmit uuid now today s) ! i) = Number (form_amount (form s)) \<and>
              category (expenses (handleSubmit uuid now today s) ! i) = form_category (form s) \<and>
              date (expenses (handleSubmit uuid now today s) ! i) = form_date (form s)) \<and>
           (expense_id (expenses s ! i) \<noteq> eid \<longrightarrow>
              expenses (handleSubmit uuid now today s) ! i = expenses s ! i)) \<and>
         (eid \<notin> expense_id ` set (expenses s) \<longrightarrow>
            expenses (handleSubmit uuid now today s) = expenses s) \<and>
         (\<forall>r \<in> set (expenses s).
            distinct (map expense_id (expenses s)) \<and> expense_id r = eid \<and>
            form_description (form s) = description r \<and> Number (form_amount (form s)) = amount r \<and>
            form_category (form s) = category r \<and> form_date (form s) = date r
            \<longrightarrow> expenses (handleSubmit uuid now today s) = expenses s)"
proof (intro conjI)
  let ?upd = "updateItem eid (form s) (Number (form_amount (form s)))"
  have eq: "expenses (handleSubmit uuid now today s) = map ?upd (expenses s)"
    by (simp add: handleSubmit_update [OF valid editing] resetForm_def)
  show "length (expenses (handleSubmit uuid now today s)) = length (expenses s)"
    by (simp add: eq)
  show "\<forall>i < length (expenses s).
           (expense_id (expenses s ! i) = eid \<longrightarrow>
              expense_id (expenses (handleSubmit uuid now today s) ! i) = expense_id (expenses s ! i) \<and>
              createdAt (expenses (handleSubmit uuid now today s) ! i) = createdAt (expenses s ! i) \<and>
              description (expenses (handleSubmit uuid now today s) ! i) = form_description (form s) \<and>
              amount (expenses (handleSubmit uuid now today s) ! i) = Number (form_amount (form s)) \<and>
              category (expenses (handleSubmit uuid now today s) ! i) = form_category (form s) \<and>
              date (expenses (handleSubmit uuid now today s) ! i) = form_date (form s)) \<and>
           (expense_id (expenses s ! i) \<noteq> eid \<longrightarrow>
              expenses (handleSubmit uuid now today s) ! i = expenses s ! i)"
    by (simp add: eq updateItem_def)
  have same: "?upd r = r" if "expense_id r \<noteq> eid" for r
    using that by (simp add: updateItem_def)
  show "eid \<notin> expense_id ` set (expenses s) \<longrightarrow> expenses (handleSubmit uuid now today s) = expenses s"
  proof
    assume absent: "eid \<notin> expense_id ` set (expenses s)"
    have "?upd r = r" if "r \<in> set (expenses s)" for r
      using that absent by (intro same) auto
    then show "expenses (handleSubmit uuid now today s) = expenses s"
      by (simp add: eq map_idI)
  qed
  show "\<forall>r \<in> set (expenses s).
           distinct (map expense_id (expenses s)) \<and> expense_id r = eid \<and>
           form_description (form s) = description r \<and> Number (form_amount (form s)) = amount r \<and>
           form_category (form s) = category r \<and> form_date (form s) = date r
           \<longrightarrow> expenses (handleSubmit uuid now today s) = expenses s"
  proof (intro ballI impI)
    fix r
    assume r: "r \<in> set (expenses s)"
      and h: "distinct (map expense_id (expenses s)) \<and> expense_id r = eid \<and>
           form_description (form s) = description r \<and> Number (form_amount (form s)) = amount r \<and>
           form_category (form s) = category r \<and> form_date (form s) = date r"
    have "?upd x = x" if x: "x \<in> set (expenses s)" for x
    proof (cases "expense_id x = eid")
      case True
      with h r x have "x = r"
        by (metis distinct_map inj_onD)
      with h show ?thesis
        by (simp add: updateItem_def)
    next
      case False
      then show ?thesis by (rule same)
    qed
    then show "expenses (handleSubmit uuid now today s) = expenses s"
      by (simp add: eq map_idI)
  qed
qed

text \<open>
  On the collection of the scenario: editing the coffee into a latte, the same draft
  with an id that no record has, and a draft holding the coffee's own values.
\<close>

theorem update_frame_witness:
  "validateForm (draft ''Latte'' ''5'' Food ''2024-01-07'') = None \<and>
   expenses (handleSubmit ''u1'' (Fin 0) ''2024-01-08''
     (page [coffee, bus] (draft ''Latte'' ''5'' Food ''2024-01-07'') (Some ''id-coffee''))) =
     [coffee\<lparr>description := ''Latte'', amount := Fin 5, date := ''2024-01-07''\<rparr>, bus] \<and>
   expenses (handleSubmit ''u1'' (Fin 0) ''2024-01-08''
     (page [coffee, bus] (draft ''Latte'' ''5'' Food ''2024-01-07'') (Some ''id-gone''))) =
     [coffee, bus] \<and>
   expenses (handleSubmit ''u1'' (Fin 0) ''2024-01-08''
     (page [coffee, bus] (draft ''Coffee'' ''4.50'' Food ''2024-01-05'') (Some ''id-coffee''))) =
     [coffee, bus]"
proof -
  let ?latte = "draft ''Latte'' ''5'' Food ''2024-01-07''"
  let ?same = "draft ''Coffee'' ''4.50'' Food ''2024-01-05''"
  have v1: "validateForm (form (page [coffee, bus] ?latte eid)) = None" for eid
    by (simp add: page_def draft_def validateForm_cases trim_Latte Number_5 num_gt_def)
  have v2: "validateForm (form (page [coffee, bus] ?same eid)) = None" for eid
    by (simp add: page_def draft_def validateForm_cases trim_Coffee Number_4_50 num_gt_def)
  have e: "editingId (page [coffee, bus] f (Some eid)) = Some eid" for f eid
    by (simp add: page_def)
  have n: "''id-coffee'' \<noteq> []" "''id-gone'' \<noteq> []"
    by simp_all
  note a = update_frame [OF v1 e n(1), of "''u1''" "Fin 0" "''2024-01-08''"]
  note b = update_frame [OF v1 e n(2), of "''u1''" "Fin 0" "''2024-01-08''"]
  note c = update_frame [OF v2 e n(1), of "''u1''" "Fin 0" "''2024-01-08''"]
  have a': "expenses (handleSubmit ''u1'' (Fin 0) ''2024-01-08''
     (page [coffee, bus] ?latte (Some ''id-coffee''))) =
     [coffee\<lparr>description := ''Latte'', amount := Fin 5, date := ''2024-01-07''\<rparr>, bus]"
    using a by (simp add: page_def draft_def coffee_def bus_def Number_5 list_eq_iff_nth_eq
        All_less_Suc numeral_2_eq_2 Expense.equality)
  have b': "expenses (handleSubmit ''u1'' (Fin 0) ''2024-01-08''
     (page [coffee, bus] ?latte (Some ''id-gone''))) = [coffee, bus]"
    using b by (simp add: page_def coffee_def bus_def)
  have c': "expenses (handleSubmit ''u1'' (Fin 0) ''2024-01-08''
     (page [coffee, bus] ?same (Some ''id-coffee''))) = [coffee, bus]"
    using c by (simp add: page_def draft_def coffee_def bus_def Number_4_50)
  from a' b' c' v1 [of None] show ?thesis
    by (simp add: page_def)
qed

section \<open>The record invariants\<close>

text \<open>
  \<^bold>\<open>C4.\<close> The update branch spreads the draft over the record
  (\<^verbatim>\<open>{ ...item, ...form, amount }\<close>), so the description it stores is the draft's as
  typed; only the create branch stores \<^verbatim>\<open>form.description.trim()\<close>. Submitting the valid
  draft \<^verbatim>\<open>"  Coffee  "\<close> while the coffee is being edited leaves a record whose
  description has the two leading and the two trailing blanks; submitting the same draft
  as a new expense stores \<^verbatim>\<open>"Coffee"\<close>.
\<close>

theorem update_keeps_untrimmed_description:
  "validateForm (draft ''  Coffee  '' ''4.50'' Food ''2024-01-05'') = None \<and>
   expenses (handleSubmit ''u1'' (Fin 0) ''2024-01-08''
     (page [coffee, bus] (draft ''  Coffee  '' ''4.50'' Food ''2024-01-05'') (Some ''id-coffee''))) =
     [coffee\<lparr>description := ''  Coffee  ''\<rparr>, bus] \<and>
   trim ''  Coffee  '' = ''Coffee'' \<and>
   expenses (handleSubmit ''u1'' (Fin 0) ''2024-01-08''
     (page [bus] (draft ''  Coffee  '' ''4.50'' Food ''2024-01-05'') None)) =
     [coffee\<lparr>expense_id := ''u1'', createdAt := Fin 0\<rparr>, bus]"
proof -
  let ?f = "draft ''  Coffee  '' ''4.50'' Food ''2024-01-05''"
  have v: "validateForm ?f = None"
    by (simp add: draft_def validateForm_cases trim_padded_Coffee Number_4_50 num_gt_def)
  then have v': "validateForm (form (page exps ?f eid)) = None" for exps eid
    by (simp add: page_def)
  have "expenses (handleSubmit ''u1'' (Fin 0) ''2024-01-08'' (page [coffee, bus] ?f (Some ''id-coffee''))) =
     [coffee\<lparr>description := ''  Coffee  ''\<rparr>, bus]"
    unfolding handleSubmit_def Let_def v'
    by (simp add: truthy_def resetForm_def page_def draft_def updateItem_def coffee_def bus_def
        Number_4_50)
  moreover have "expenses (handleSubmit ''u1'' (Fin 0) ''2024-01-08'' (page [bus] ?f None)) =
     [coffee\<lparr>expense_id := ''u1'', createdAt := Fin 0\<rparr>, bus]"
    unfolding handleSubmit_def Let_def v'
    by (simp add: truthy_def resetForm_def page_def draft_def newExpense_def coffee_def bus_def
        Number_4_50 trim_padded_Coffee)
  ultimately show ?thesis
    using v trim_padded_Coffee by simp
qed

section \<open>Filtering\<close>

lemma includes_str_sublist: "includes_str s sub = sublist sub s"
  by (induction s) (simp_all add: sublist_Cons_right)

lemma includes_str_iff: "includes_str s sub = (\<exists>pre post. s = pre @ sub @ post)"
  by (simp add: includes_str_sublist sublist_def)

lemma mset_insertPivot: "mset (insertPivot cmp arr pivot) = add_mset pivot (mset arr)"
proof -
  have "mset (take n arr) + mset (drop n arr) = mset arr" for n
    by (metis append_take_drop_id mset_append)
  then show ?thesis
    by (simp add: insertPivot_def Let_def)
qed

lemma mset_foldl_insertPivot: "mset (foldl (insertPivot cmp) run ys) = mset run + mset ys"
  by (induction ys arbitrary: run) (simp_all add: mset_insertPivot)

lemma mset_take_drop: "mset (take n l) + mset (drop n l) = mset l"
  by (metis append_take_drop_id mset_append)

lemma mset_v8ShortSort: "mset (v8ShortSort cmp xs) = mset xs"
proof (cases xs)
  case Nil
  then show ?thesis by (simp add: v8ShortSort_def)
next
  case (Cons x ys)
  show ?thesis
  proof (cases ys)
    case Nil
    with Cons show ?thesis by (simp add: v8ShortSort_def)
  next
    case (Cons y rest)
    have "add_mset x (add_mset y (mset (take k rest) + mset (drop k rest))) = mset (x # y # rest)" for k
      by (simp add: mset_take_drop)
    with Cons \<open>xs = x # ys\<close> show ?thesis
      by (simp add: v8ShortSort_def Let_def mset_foldl_insertPivot)
  qed
qed

text \<open>
  \<^bold>\<open>C1.\<close> Whatever the host's sort does with the order, it returns the elements it was
  given. Then a record is in the filtered list if and only if it is in the collection,
  its category is the filter's or the filter's is ``All'', its lower-cased description
  contains the lower-cased trimmed search text (as a contiguous run; the empty text is
  contained in every description), and its date is within the bounds that are set; and
  it is there as many times as in the collection.
\<close>

theorem filtered_keeps_iff:
  assumes perm: "\<And>xs. mset (srt dateCompare xs) = mset xs"
  shows "(e \<in> set (filteredExpenses srt exps fs) \<longleftrightarrow>
           e \<in> set exps \<and>
           (filter_category fs = AllCategories \<or> filter_category fs = Only (category e)) \<and>
           (\<exists>pre post. toLowerCase (description e) = pre @ toLowerCase (trim (search fs)) @ post) \<and>
           (filter_from fs \<noteq> [] \<longrightarrow> filter_from fs \<le> date e) \<and>
           (filter_to fs \<noteq> [] \<longrightarrow> date e \<le> filter_to fs)) \<and>
         count (mset (filteredExpenses srt exps fs)) e =
           (if e \<in> set (filteredExpenses srt exps fs) then count (mset exps) e else 0) \<and>
         (trim (search fs) = [] \<longrightarrow>
            (\<exists>pre post. toLowerCase (description e) = pre @ toLowerCase (trim (search fs)) @ post))"
proof -
  have m: "mset (filteredExpenses srt exps fs) = filter_mset (matchesFilters fs) (mset exps)"
    by (simp add: filteredExpenses_def perm)
  then have "set (filteredExpenses srt exps fs) = {x \<in> set exps. matchesFilters fs x}"
    by (metis mset_filter set_filter set_mset_mset)
  then have mem: "e \<in> set (filteredExpenses srt exps fs) \<longleftrightarrow> e \<in> set exps \<and> matchesFilters fs e"
    by simp
  have "matchesFilters fs e \<longleftrightarrow>
          (filter_category fs = AllCategories \<or> filter_category fs = Only (category e)) \<and>
          (\<exists>pre post. toLowerCase (description e) = pre @ toLowerCase (trim (search fs)) @ post) \<and>
          (filter_from fs \<noteq> [] \<longrightarrow> filter_from fs \<le> date e) \<and>
          (filter_to fs \<noteq> [] \<longrightarrow> date e \<le> filter_to fs)"
    by (auto simp: matchesFilters_def Let_def includes_str_iff)
  moreover have "count (mset (filteredExpenses srt exps fs)) e =
           (if e \<in> set (filteredExpenses srt exps fs) then count (mset exps) e else 0)"
    using mem by (simp add: m)
  moreover have "\<exists>pre post. toLowerCase (description e) = pre @ toLowerCase [] @ post"
    by (simp add: toLowerCase_def) (metis append_Nil)
  ultimately show ?thesis
    using mem by simp
qed

lemma filtered_cof: "filteredExpenses v8ShortSort [coffee, bus] cofFilters = [coffee]"
  by code_simp

theorem filtered_keeps_iff_witness:
  "(\<forall>xs. mset (v8ShortSort dateCompare xs) = mset xs) \<and>
   coffee \<in> set (filteredExpenses v8ShortSort [coffee, bus] cofFilters) \<and>
   bus \<notin> set (filteredExpenses v8ShortSort [coffee, bus] cofFilters)"
proof -
  note kept =
    filtered_keeps_iff [where srt = v8ShortSort and e = coffee and exps = "[coffee, bus]"
      and fs = cofFilters, OF mset_v8ShortSort]
  have "coffee \<in> set (filteredExpenses v8ShortSort [coffee, bus] cofFilters)"
    by (simp add: filtered_cof)
  moreover have "bus \<notin> set (filteredExpenses v8ShortSort [coffee, bus] cofFilters)"
    unfolding filtered_cof by (simp add: coffee_def bus_def)
  ultimately show ?thesis
    using kept by (simp add: mset_v8ShortSort)
qed

section \<open>The order of the filtered list\<close>

lemma dateCompare_equal_dates:
  "date a = date b \<Longrightarrow> dateCompare a b = - 1 \<and> dateCompare b a = - 1"
  by (simp add: dateCompare_def)

lemma dateCompare_never_zero: "dateCompare a b \<noteq> 0"
  by (simp add: dateCompare_def)

text \<open>
  \<^bold>\<open>C2.\<close> The comparator \<^verbatim>\<open>(a, b) => (a.date < b.date ? 1 : -1)\<close> never answers 0: for
  two records of one date it answers -1 whichever comes first, so it is not a consistent
  comparison function and the order of such records is what the engine's algorithm
  makes of its answers. V8 asks \<^verbatim>\<open>comparefn(elements[1], elements[0])\<close>, reads -1 as a
  descending run and reverses it: the coffee and the tea of one day, entered in that order,
  come out tea first.
\<close>

theorem equal_dates_come_out_reversed:
  "date coffee = date tea \<and>
   dateCompare coffee tea = - 1 \<and> dateCompare tea coffee = - 1 \<and>
   filteredExpenses v8ShortSort [coffee, tea] noFilters = [tea, coffee]"
  by code_simp

section \<open>The exporter\<close>

text \<open>
  \<^bold>\<open>C7.\<close> The early return of \<^verbatim>\<open>exportCsv\<close> tests \<^verbatim>\<open>expenses.length\<close>, the whole
  collection (as the \<^verbatim>\<open>disabled\<close> attribute of the export button does), and the rows
  are those of \<^verbatim>\<open>filteredExpenses\<close>. With one expense of category Food and the filter
  set to Bills, the filtered list is empty and the export is the header row alone.
\<close>

theorem export_of_empty_filtered_list:
  \<open>filteredExpenses v8ShortSort [coffee] onlyBills = [] \<and>
   exportCsv v8ShortSort (\<lambda>x. []) [coffee] onlyBills =
     Some ''"Description","Amount","Category","Date"''\<close>
  by code_simp

text \<open>
  \<^bold>\<open>C7\<close>, as the code has it: the export produces nothing exactly when the whole
  collection is empty; with a collection that is not empty it produces a text, whatever
  the filtered list, and when the filtered list is empty that text is the header row
  alone, its four cells in double quotes.
\<close>

theorem exportCsv_guards_the_collection:
  \<open>((exportCsv srt numToString exps fs = None) = (exps = [])) \<and>
   (exps \<noteq> [] \<and> filteredExpenses srt exps fs = [] \<longrightarrow>
      exportCsv srt numToString exps fs = Some ''"Description","Amount","Category","Date"'')\<close>
proof (intro conjI impI)
  show "(exportCsv srt numToString exps fs = None) = (exps = [])"
    by (simp add: exportCsv_def Let_def)
next
  assume "exps \<noteq> [] \<and> filteredExpenses srt exps fs = []"
  then have "exportCsv srt numToString exps fs =
      Some (csvText [[''Description'', ''Amount'', ''Category'', ''Date'']])"
    by (simp add: exportCsv_def Let_def)
  then show \<open>exportCsv srt numToString exps fs =
      Some ''"Description","Amount","Category","Date"''\<close>
    by (simp add: csvText_def quoteCell_def replaceQuotes_def)
qed

text \<open>
  The scenario with a search for ``taxi'', which no description contains, and the empty
  collection.
\<close>

lemma filtered_taxi: "filteredExpenses v8ShortSort [coffee, bus] taxiSearch = []"
  by code_simp

theorem exportCsv_guards_the_collection_witness:
  \<open>[coffee, bus] \<noteq> [] \<and>
   filteredExpenses v8ShortSort [coffee, bus] taxiSearch = [] \<and>
   exportCsv v8ShortSort (\<lambda>x. []) [coffee, bus] taxiSearch =
     Some ''"Description","Amount","Category","Date"'' \<and>
   exportCsv v8ShortSort (\<lambda>x. []) [] taxiSearch = None\<close>
proof -
  have h: "[coffee, bus] \<noteq> [] \<and> filteredExpenses v8ShortSort [coffee, bus] taxiSearch = []"
    by (simp add: filtered_taxi)
  note full =
    exportCsv_guards_the_collection [where srt = v8ShortSort and numToString = "\<lambda>x. []"
      and exps = "[coffee, bus]" and fs = taxiSearch]
  note none =
    exportCsv_guards_the_collection [where srt = v8ShortSort and numToString = "\<lambda>x. []"
      and exps = "[]" and fs = taxiSearch]
  from full h have \<open>exportCsv v8ShortSort (\<lambda>x. []) [coffee, bus] taxiSearch =
      Some ''"Description","Amount","Category","Date"''\<close>
    by blast
  moreover from none have "exportCsv v8ShortSort (\<lambda>x. []) [] taxiSearch = None"
    by simp
  ultimately show ?thesis
    using h by simp
qed

lemma replaceQuotes_same: "replaceQuotes cell = cell"
  by (induction cell) (simp_all add: replaceQuotes_def)

lemma join_Cons: "join sep (x # xs) = x @ concat (map (\<lambda>y. sep @ y) xs)"
  by (induction xs arbitrary: x) simp_all

lemma isDigit_char_of: "n < 10 \<Longrightarrow> isDigit (char_of (48 + n :: nat))"
  by (simp add: isDigit_def)

lemma showNat_digits: "list_all isDigit (showNat n)"
proof (induction n rule: showNat.induct)
  case (1 n)
  show ?case
  proof (cases "n < 10")
    case True
    then show ?thesis
      by (subst showNat.simps) (simp add: isDigit_char_of)
  next
    case False
    with 1 show ?thesis
      by (subst showNat.simps) (simp add: isDigit_char_of)
  qed
qed

lemma showNat_nonempty: "showNat n \<noteq> []"
  by (subst showNat.simps) simp

lemma length_two: "length l = 2 \<Longrightarrow> \<exists>a b. l = [a, b]"
  by (auto simp: numeral_2_eq_2 length_Suc_conv)

lemma digits_replicate_zero: "list_all isDigit (replicate k (CHR ''0''))"
  by (induction k) (simp_all add: isDigit_def)

lemma fixed2_two_decimals:
  "\<exists>ds d1 d2. fixed2 a = ds @ ''.'' @ [d1, d2] \<and> ds \<noteq> [] \<and> list_all isDigit (ds @ [d1, d2])"
proof -
  define m where "m = showNat (nat \<lfloor>a * 100 + 1 / 2\<rfloor>)"
  define ds where "ds = replicate (3 - length m) (CHR ''0'') @ m"
  define k where "k = length ds - 2"
  have len: "3 \<le> length ds"
    unfolding ds_def by simp
  have "list_all isDigit m"
    unfolding m_def by (rule showNat_digits)
  then have dig: "list_all isDigit ds"
    unfolding ds_def by (simp add: digits_replicate_zero)
  have eq: "fixed2 a = take k ds @ ''.'' @ drop k ds"
    unfolding fixed2_def Let_def ds_def m_def k_def by (rule refl)
  have "length (drop k ds) = 2"
    using len unfolding k_def by simp
  then obtain d1 d2 where d: "drop k ds = [d1, d2]"
    using length_two by blast
  have ne: "take k ds \<noteq> []"
    using len unfolding k_def by auto
  have "list_all isDigit (take k ds @ drop k ds)"
    using dig by simp
  then have all: "list_all isDigit (take k ds @ [d1, d2])"
    unfolding d .
  have "fixed2 a = take k ds @ ''.'' @ [d1, d2]"
    unfolding eq d by (rule refl)
  with ne all show ?thesis
    by blast
qed

lemma quoted_row: "join '','' (map quoteCell (expenseRow numToString e)) = rowLine numToString e"
  by (simp add: expenseRow_def quoteCell_def replaceQuotes_same rowLine_def)

lemma quoted_header:
  \<open>join '','' (map quoteCell [''Description'', ''Amount'', ''Category'', ''Date'']) =
     ''"Description","Amount","Category","Date"''\<close>
  by (simp add: quoteCell_def replaceQuotes_same)

lemma csvText_Cons:
  "csvText (h # map (expenseRow numToString) rows) =
     join '','' (map quoteCell h) @
       concat (map (\<lambda>e. [CHR 0x0A] @ rowLine numToString e) rows)"
  unfolding csvText_def list.map join_Cons
  by (simp add: comp_def quoted_row del: join.simps)

lemma exportCsv_nonempty:
  "exps \<noteq> [] \<Longrightarrow>
     exportCsv srt numToString exps fs =
       Some (csvText ([''Description'', ''Amount'', ''Category'', ''Date''] #
         map (expenseRow numToString) (filteredExpenses srt exps fs)))"
  unfolding exportCsv_def Let_def by simp

lemma toFixed2_two_decimals:
  assumes "0 \<le> q" "q < 10 ^ 21"
  shows "\<exists>ds d1 d2. toFixed2 numToString (Fin q) = ds @ ''.'' @ [d1, d2] \<and>
           ds \<noteq> [] \<and> list_all isDigit (ds @ [d1, d2])"
proof -
  from assms have "toFixed2 numToString (Fin q) = fixed2 q"
    by (simp add: toFixed2_def)
  then show ?thesis
    using fixed2_two_decimals [of q] by (simp only:)
qed

lemma filtered_scenario: "filteredExpenses v8ShortSort [coffee, bus] noFilters = [bus, coffee]"
  by code_simp

lemma export_scenario:
  \<open>exportCsv v8ShortSort (\<lambda>x. []) [coffee, bus] noFilters =
     Some ''"Description","Amount","Category","Date"\<newline>"Bus","2.75","Transportation","2024-01-06"\<newline>"Coffee","4.50","Food","2024-01-05"''\<close>
  by code_simp

text \<open>
  \<^bold>\<open>C6.\<close> The header goes through the same \<^verbatim>\<open>map\<close> as the data rows, so its four cells
  are wrapped in double quotes too: on the two-record example the first line of the
  export is \<^verbatim>\<open>"Description","Amount","Category","Date"\<close>, and the text differs from the
  one the specification quotes.
\<close>

theorem export_scenario_header_is_quoted:
  \<open>exportCsv v8ShortSort (\<lambda>x. []) [coffee, bus] noFilters =
     Some ''"Description","Amount","Category","Date"\<newline>"Bus","2.75","Transportation","2024-01-06"\<newline>"Coffee","4.50","Food","2024-01-05"'' \<and>
   exportCsv v8ShortSort (\<lambda>x. []) [coffee, bus] noFilters \<noteq>
     Some ''Description,Amount,Category,Date\<newline>"Bus","2.75","Transportation","2024-01-06"\<newline>"Coffee","4.50","Food","2024-01-05"''\<close>
  unfolding export_scenario by simp

text \<open>
  \<^bold>\<open>C6\<close>, as the code has it, for a non-empty collection whose filtered records have no
  double quote in their description and date: the export is the header row with each of its
  four cells in double quotes, followed, for every record of the filtered list in its
  order, by a line feed and the record's row, each of its four fields in double quotes;
  and an amount that is finite, not negative and below 10^21 is written as digits, a
  point and exactly two digits.
\<close>

theorem exportCsv_rows:
  assumes "exps \<noteq> []"
    and "\<forall>e \<in> set (filteredExpenses srt exps fs).
           CHR 0x22 \<notin> set (description e) \<and> CHR 0x22 \<notin> set (date e)"
  shows \<open>exportCsv srt numToString exps fs =
           Some (''"Description","Amount","Category","Date"'' @
                 concat (map (\<lambda>e. [CHR 0x0A] @ rowLine numToString e)
                   (filteredExpenses srt exps fs))) \<and>
         (\<forall>e \<in> set (filteredExpenses srt exps fs). \<forall>q.
            amount e = Fin q \<and> 0 \<le> q \<and> q < 10 ^ 21 \<longrightarrow>
            (\<exists>ds d1 d2. toFixed2 numToString (amount e) = ds @ ''.'' @ [d1, d2] \<and>
               ds \<noteq> [] \<and> list_all isDigit (ds @ [d1, d2])))\<close>
proof (intro conjI ballI allI impI)
  show \<open>exportCsv srt numToString exps fs =
           Some (''"Description","Amount","Category","Date"'' @
                 concat (map (\<lambda>e. [CHR 0x0A] @ rowLine numToString e)
                   (filteredExpenses srt exps fs)))\<close>
    by (simp only: exportCsv_nonempty [OF assms(1)] csvText_Cons quoted_header)
next
  fix e q
  assume "amount e = Fin q \<and> 0 \<le> q \<and> q < 10 ^ 21"
  then show "\<exists>ds d1 d2. toFixed2 numToString (amount e) = ds @ ''.'' @ [d1, d2] \<and>
               ds \<noteq> [] \<and> list_all isDigit (ds @ [d1, d2])"
    using toFixed2_two_decimals [of q numToString] by (simp only:)
qed

lemma rowLine_bus: \<open>rowLine (\<lambda>x. []) bus = ''"Bus","2.75","Transportation","2024-01-06"''\<close>
  by code_simp

lemma rowLine_coffee: \<open>rowLine (\<lambda>x. []) coffee = ''"Coffee","4.50","Food","2024-01-05"''\<close>
  by code_simp

theorem exportCsv_rows_witness:
  \<open>filteredExpenses v8ShortSort [coffee, bus] noFilters = [bus, coffee] \<and>
   exportCsv v8ShortSort (\<lambda>x. []) [coffee, bus] noFilters =
     Some (''"Description","Amount","Category","Date"'' @
           [CHR 0x0A] @ ''"Bus","2.75","Transportation","2024-01-06"'' @
           [CHR 0x0A] @ ''"Coffee","4.50","Food","2024-01-05"'')\<close>
proof -
  have ne: "[coffee, bus] \<noteq> []"
    by simp
  have quote_free: "\<forall>e \<in> set (filteredExpenses v8ShortSort [coffee, bus] noFilters).
      CHR 0x22 \<notin> set (description e) \<and> CHR 0x22 \<notin> set (date e)"
    unfolding filtered_scenario by (simp add: coffee_def bus_def)
  from exportCsv_rows [OF ne quote_free, of "\<lambda>x. []"]
  have \<open>exportCsv v8ShortSort (\<lambda>x. []) [coffee, bus] noFilters =
      Some (''"Description","Amount","Category","Date"'' @
        concat (map (\<lambda>e. [CHR 0x0A] @ rowLine (\<lambda>x. []) e) [bus, coffee]))\<close>
    unfolding filtered_scenario by (rule conjunct1)
  then show ?thesis
    by (simp add: filtered_scenario rowLine_bus rowLine_coffee)
qed

section \<open>Category totals\<close>

lemma sumAmounts_snoc: "sumAmounts (ys @ [y]) = num_add (sumAmounts ys) (amount y)"
  by (simp add: sumAmounts_def)

lemma exactSum_snoc: "exactSum (ys @ [y]) = exactSum ys + valueOf (amount y)"
  by (simp add: exactSum_def)

lemma exactlySummable_subseq:
  "exactlySummable exps \<Longrightarrow> subseq ys exps \<Longrightarrow>
     list_all (\<lambda>e. isFinite (amount e)) ys \<and> round64 (exactSum ys) = Fin (exactSum ys)"
  by (simp add: exactlySummable_def)

lemma isFinite_Fin: "isFinite x \<Longrightarrow> x = Fin (valueOf x)"
  by (cases x) (simp_all add: isFinite_def valueOf_def)

lemma sumAmounts_exact:
  assumes "exactlySummable exps"
  shows "subseq ys exps \<Longrightarrow> sumAmounts ys = Fin (exactSum ys)"
proof (induction ys rule: rev_induct)
  case Nil
  then show ?case by (simp add: sumAmounts_def exactSum_def)
next
  case (snoc y ys)
  have "subseq ys (ys @ [y])"
    by (rule prefix_imp_subseq) simp
  from this snoc.prems have sub: "subseq ys exps"
    by (rule subseq_order.trans)
  from exactlySummable_subseq [OF assms snoc.prems]
  have fin: "isFinite (amount y)" and rnd: "round64 (exactSum (ys @ [y])) = Fin (exactSum (ys @ [y]))"
    by simp_all
  have "sumAmounts (ys @ [y]) = num_add (Fin (exactSum ys)) (Fin (valueOf (amount y)))"
    using snoc.IH [OF sub] isFinite_Fin [OF fin] by (simp add: sumAmounts_snoc)
  also have "\<dots> = round64 (exactSum (ys @ [y]))"
    by (simp add: exactSum_snoc)
  finally show ?case
    by (simp add: rnd)
qed

lemma exactSum_filter_disjoint:
  "(\<And>e. \<not> (P e \<and> Q e)) \<Longrightarrow>
     exactSum (filter P xs) + exactSum (filter Q xs) = exactSum (filter (\<lambda>e. P e \<or> Q e) xs)"
  by (induction xs) (auto simp: exactSum_def)

lemma add_exact:
  assumes "exactlySummable exps" and "\<And>e. \<not> (P e \<and> Q e)"
  shows "num_add (Fin (exactSum (filter P exps))) (Fin (exactSum (filter Q exps))) =
           Fin (exactSum (filter (\<lambda>e. P e \<or> Q e) exps))"
proof -
  have "round64 (exactSum (filter (\<lambda>e. P e \<or> Q e) exps)) =
      Fin (exactSum (filter (\<lambda>e. P e \<or> Q e) exps))"
    using exactlySummable_subseq [OF assms(1), of "filter (\<lambda>e. P e \<or> Q e) exps"] by simp
  then show ?thesis
    by (simp add: exactSum_filter_disjoint [OF assms(2)])
qed

lemma total_exact:
  "exactlySummable exps \<Longrightarrow>
     sumAmounts (filter (\<lambda>e. category e = c) exps) = Fin (exactSum (filter (\<lambda>e. category e = c) exps))"
  using subseq_filter_left [of "\<lambda>e. category e = c" exps] by (intro sumAmounts_exact)

lemma add_zero_exact:
  assumes "exactlySummable exps"
  shows "num_add (Fin 0) (Fin (exactSum (filter P exps))) = Fin (exactSum (filter P exps))"
  using exactlySummable_subseq [OF assms, of "filter P exps"] by simp

lemma sumTotals_exact:
  assumes H: "exactlySummable exps"
  shows "sumTotals (totalsByCategory exps) = totalSpent exps"
proof -
  let ?f = "\<lambda>c. Fin (exactSum (filter (\<lambda>e. category e = c) exps))"
  let ?g = "\<lambda>P. Fin (exactSum (filter P exps))"
  have a1: "num_add (Fin 0) (?f Food) = ?f Food"
    by (rule add_zero_exact [OF H])
  have a2: "num_add (?f Food) (?f Transportation) =
      ?g (\<lambda>e. category e = Food \<or> category e = Transportation)"
    by (rule add_exact [OF H]) simp
  have a3: "num_add (?g (\<lambda>e. category e = Food \<or> category e = Transportation)) (?f Entertainment) =
      ?g (\<lambda>e. (category e = Food \<or> category e = Transportation) \<or> category e = Entertainment)"
    by (rule add_exact [OF H]) auto
  have a4: "num_add (?g (\<lambda>e. (category e = Food \<or> category e = Transportation) \<or>
        category e = Entertainment)) (?f Shopping) =
      ?g (\<lambda>e. ((category e = Food \<or> category e = Transportation) \<or> category e = Entertainment) \<or>
        category e = Shopping)"
    by (rule add_exact [OF H]) auto
  have a5: "num_add (?g (\<lambda>e. ((category e = Food \<or> category e = Transportation) \<or>
        category e = Entertainment) \<or> category e = Shopping)) (?f Bills) =
      ?g (\<lambda>e. (((category e = Food \<or> category e = Transportation) \<or> category e = Entertainment) \<or>
        category e = Shopping) \<or> category e = Bills)"
    by (rule add_exact [OF H]) auto
  have a6: "num_add (?g (\<lambda>e. (((category e = Food \<or> category e = Transportation) \<or>
        category e = Entertainment) \<or> category e = Shopping) \<or> category e = Bills)) (?f Other) =
      ?g (\<lambda>e. ((((category e = Food \<or> category e = Transportation) \<or> category e = Entertainment) \<or>
        category e = Shopping) \<or> category e = Bills) \<or> category e = Other)"
    by (rule add_exact [OF H]) auto
  have every: "(\<lambda>e. ((((category e = Food \<or> category e = Transportation) \<or>
        category e = Entertainment) \<or> category e = Shopping) \<or> category e = Bills) \<or>
        category e = Other) = (\<lambda>e. True)"
  proof
    fix e
    show "(((((category e = Food \<or> category e = Transportation) \<or>
        category e = Entertainment) \<or> category e = Shopping) \<or> category e = Bills) \<or>
        category e = Other) = True"
      by (cases "category e") simp_all
  qed
  have "sumTotals (totalsByCategory exps) =
      num_add (num_add (num_add (num_add (num_add (num_add (Fin 0) (?f Food)) (?f Transportation))
        (?f Entertainment)) (?f Shopping)) (?f Bills)) (?f Other)"
    by (simp add: sumTotals_def totalsByCategory_def CATEGORIES_def total_exact [OF H])
  also have "\<dots> = ?g (\<lambda>e. True)"
    by (simp only: a1 a2 a3 a4 a5 a6 every)
  also have "\<dots> = totalSpent exps"
    using sumAmounts_exact [OF H, of exps] by (simp add: totalSpent_def)
  finally show ?thesis .
qed

text \<open>
  The binary64 number nearest to 0.1 is \<open>3602879701896397 / 2 ^ 55\<close>, the one nearest to 0.4
  is \<open>3602879701896397 / 2 ^ 53\<close>. The additions below are those the component performs
  on a snack of 0.1, a fare of 0.1 and a lunch of 0.4.
\<close>

lemma Number_tenth: "Number ''0.1'' = Fin (3602879701896397 / 36028797018963968)"
  by code_simp

lemma Number_four_tenths: "Number ''0.4'' = Fin (3602879701896397 / 9007199254740992)"
  by code_simp

lemma zero_plus_tenth:
  "num_add (Fin 0) (Fin (3602879701896397 / 36028797018963968)) =
   Fin (3602879701896397 / 36028797018963968)"
  by code_simp

lemma tenth_plus_tenth:
  "num_add (Fin (3602879701896397 / 36028797018963968))
     (Fin (3602879701896397 / 36028797018963968)) =
   Fin (3602879701896397 / 18014398509481984)"
  by code_simp

lemma two_tenths_plus_four_tenths:
  "num_add (Fin (3602879701896397 / 18014398509481984))
     (Fin (3602879701896397 / 9007199254740992)) =
   Fin (1351079888211149 / 2251799813685248)"
  by code_simp

lemma tenth_plus_four_tenths:
  "num_add (Fin (3602879701896397 / 36028797018963968))
     (Fin (3602879701896397 / 9007199254740992)) =
   Fin (1 / 2)"
  by code_simp

lemma zero_plus_half: "num_add (Fin 0) (Fin (1 / 2)) = Fin (1 / 2)"
  by code_simp

lemma half_plus_tenth:
  "num_add (Fin (1 / 2)) (Fin (3602879701896397 / 36028797018963968)) =
   Fin (5404319552844595 / 9007199254740992)"
  by code_simp

lemma six_tenths_plus_zero:
  "num_add (Fin (5404319552844595 / 9007199254740992)) (Fin 0) =
   Fin (5404319552844595 / 9007199254740992)"
  by code_simp

lemma totalSpent_snacks:
  "totalSpent [snack, fare, lunch] = Fin (1351079888211149 / 2251799813685248)"
  by (simp add: totalSpent_def sumAmounts_def snack_def fare_def lunch_def
      Number_tenth Number_four_tenths zero_plus_tenth tenth_plus_tenth
      two_tenths_plus_four_tenths del: num_add.simps)

lemma totals_snacks:
  "map total (totalsByCategory [snack, fare, lunch]) =
     [Fin (1 / 2), Fin (3602879701896397 / 36028797018963968), Fin 0, Fin 0, Fin 0, Fin 0]"
  by (simp add: totalsByCategory_def CATEGORIES_def sumAmounts_def snack_def fare_def lunch_def
      Number_tenth Number_four_tenths zero_plus_tenth tenth_plus_four_tenths del: num_add.simps)

lemma sumTotals_snacks:
  "sumTotals (totalsByCategory [snack, fare, lunch]) = Fin (5404319552844595 / 9007199254740992)"
proof -
  have "sumTotals ts = foldl num_add (Fin 0) (map total ts)" for ts
    by (simp add: sumTotals_def foldl_map)
  then show ?thesis
    by (simp add: totals_snacks zero_plus_half half_plus_tenth six_tenths_plus_zero
        del: num_add.simps)
qed

text \<open>
  \<^bold>\<open>C8.\<close> The amounts are binary64 numbers and every addition rounds. With a snack of
  0.1 (Food), a fare of 0.1 (Transportation) and a lunch of 0.4 (Food), in that order,
  \<^verbatim>\<open>totalSpent\<close> is \<^verbatim>\<open>(0.1 + 0.1) + 0.4 = 0.6000000000000001\<close>, the totals are 0.5 for Food
  and 0.1 for Transportation, and their sum is \<^verbatim>\<open>0.5 + 0.1 = 0.6\<close>: neither the rounded
  sum of the totals nor their exact sum is \<^verbatim>\<open>totalSpent\<close>.
\<close>

theorem totals_sum_differs_from_totalSpent:
  "totalSpent [snack, fare, lunch] = Fin (1351079888211149 / 2251799813685248) \<and>
   map total (totalsByCategory [snack, fare, lunch]) =
     [Fin (1 / 2), Fin (3602879701896397 / 36028797018963968), Fin 0, Fin 0, Fin 0, Fin 0] \<and>
   sumTotals (totalsByCategory [snack, fare, lunch]) = Fin (5404319552844595 / 9007199254740992) \<and>
   sumTotals (totalsByCategory [snack, fare, lunch]) \<noteq> totalSpent [snack, fare, lunch] \<and>
   Fin (1 / 2 + 3602879701896397 / 36028797018963968) \<noteq> totalSpent [snack, fare, lunch]"
  unfolding totalSpent_snacks totals_snacks sumTotals_snacks by simp

text \<open>
  \<^bold>\<open>C8\<close>, as the code has it: there is one entry per category, in the order of
  \<^verbatim>\<open>CATEGORIES\<close>; the total of a category is its amounts added left to right from 0,
  each addition rounded, and is 0 when the category has no records; and the totals add
  up to \<^verbatim>\<open>totalSpent\<close> when the amounts are finite and the exact sum of any of them is
  a number, so that no addition rounds.
\<close>

theorem totalsByCategory_sums:
  "map total_category (totalsByCategory exps) = CATEGORIES \<and>
   (\<forall>i < length CATEGORIES.
      total (totalsByCategory exps ! i) =
        sumAmounts (filter (\<lambda>e. category e = CATEGORIES ! i) exps)) \<and>
   (\<forall>i < length CATEGORIES.
      (\<forall>e \<in> set exps. category e \<noteq> CATEGORIES ! i) \<longrightarrow> total (totalsByCategory exps ! i) = Fin 0) \<and>
   (exactlySummable exps \<longrightarrow> sumTotals (totalsByCategory exps) = totalSpent exps)"
proof (intro conjI allI impI)
  show "map total_category (totalsByCategory exps) = CATEGORIES"
    by (simp add: totalsByCategory_def comp_def)
next
  fix i
  assume i: "i < length CATEGORIES"
  then show t: "total (totalsByCategory exps ! i) =
        sumAmounts (filter (\<lambda>e. category e = CATEGORIES ! i) exps)"
    by (simp add: totalsByCategory_def)
  assume "\<forall>e \<in> set exps. category e \<noteq> CATEGORIES ! i"
  then have "filter (\<lambda>e. category e = CATEGORIES ! i) exps = []"
    by (simp add: filter_empty_conv)
  then show "total (totalsByCategory exps ! i) = Fin 0"
    using i by (simp add: totalsByCategory_def sumAmounts_def)
next
  assume "exactlySummable exps"
  then show "sumTotals (totalsByCategory exps) = totalSpent exps"
    by (rule sumTotals_exact)
qed

lemma summable_scenario: "exactlySummable [coffee, bus]"
  by code_simp

lemma spent_scenario: "totalSpent [coffee, bus] = Fin (29 / 4)"
  by code_simp

theorem totalsByCategory_sums_witness:
  "exactlySummable [coffee, bus] \<and>
   sumTotals (totalsByCategory [coffee, bus]) = Fin (29 / 4) \<and>
   totalSpent [coffee, bus] = Fin (29 / 4)"
  using totalsByCategory_sums [of "[coffee, bus]"] summable_scenario spent_scenario
  by simp

section \<open>The top category\<close>

lemma num_less_irrefl: "\<not> num_less a a"
  by (cases a) simp_all

lemma num_less_trans: "num_less a b \<Longrightarrow> num_less b c \<Longrightarrow> num_less a c"
  by (cases a; cases b; cases c) simp_all

lemma num_less_linear: "a \<noteq> NaN \<Longrightarrow> b \<noteq> NaN \<Longrightarrow> num_less a b \<or> a = b \<or> num_less b a"
  by (cases a; cases b) auto

lemma num_not_less_trans:
  "a \<noteq> NaN \<Longrightarrow> b \<noteq> NaN \<Longrightarrow> \<not> num_less b a \<Longrightarrow> num_less b c \<Longrightarrow> num_less a c"
  using num_less_linear [of a b] num_less_trans [of a b c] by auto

lemma num_le_iff_not_less: "a \<noteq> NaN \<Longrightarrow> b \<noteq> NaN \<Longrightarrow> num_le a b = (\<not> num_less b a)"
  using num_less_linear [of a b] num_less_trans [of a b a] num_less_irrefl [of a]
  by (auto simp: num_le_def)

lemma pow2_pos: "0 < pow2 e"
  by (simp add: pow2_def)

lemma round_half_even_nonneg: "0 \<le> x \<Longrightarrow> 0 \<le> round_half_even x"
  by (auto simp: round_half_even_def Let_def)

lemma round64_nonneg: "0 \<le> q \<Longrightarrow> num_le (Fin 0) (round64 q)"
proof (cases "q = 0")
  case True
  then show ?thesis by (simp add: round64_def num_le_def)
next
  case False
  assume "0 \<le> q"
  with False have pos: "0 < q" by simp
  define u where "u = pow2 (max (floor_log2 \<bar>q\<bar>) (- 1022) - 52)"
  define r where "r = of_int (round_half_even (\<bar>q\<bar> / u)) * u"
  have "0 < u" by (simp add: u_def pow2_pos)
  then have "0 \<le> r"
    by (simp add: r_def round_half_even_nonneg)
  moreover have "round64 q = (if 2 ^ 1024 \<le> r then PosInf else Fin r)"
    using pos by (simp add: round64_def Let_def r_def u_def)
  ultimately show ?thesis
    by (auto simp: num_le_def)
qed

lemma num_add_nonneg:
  "num_le (Fin 0) a \<Longrightarrow> num_le (Fin 0) b \<Longrightarrow> num_le (Fin 0) (num_add a b)"
proof (cases a; cases b)
  fix x y
  assume ab: "a = Fin x" "b = Fin y" and "num_le (Fin 0) a" "num_le (Fin 0) b"
  then have "0 \<le> x" "0 \<le> y"
    by (auto simp: num_le_def)
  then have "0 \<le> x + y"
    by simp
  then show ?thesis
    unfolding ab by (simp add: round64_nonneg)
qed (simp_all add: num_le_def)

lemma foldl_add_nonneg:
  "num_le (Fin 0) acc \<Longrightarrow> \<forall>e \<in> set exps. num_le (Fin 0) (amount e) \<Longrightarrow>
     num_le (Fin 0) (foldl (\<lambda>sum expense. num_add sum (amount expense)) acc exps)"
  by (induction exps arbitrary: acc) (simp_all add: num_add_nonneg)

lemma sumAmounts_nonneg:
  "\<forall>e \<in> set exps. num_le (Fin 0) (amount e) \<Longrightarrow> num_le (Fin 0) (sumAmounts exps)"
  unfolding sumAmounts_def by (rule foldl_add_nonneg) (simp_all add: num_le_def)

lemma top_fold:
  assumes "\<forall>t \<in> set ts. total t \<noteq> NaN" "total acc \<noteq> NaN"
  shows "total (foldl larger acc ts) \<noteq> NaN \<and>
         (\<forall>t \<in> set ts. \<not> num_less (total (foldl larger acc ts)) (total t)) \<and>
         \<not> num_less (total (foldl larger acc ts)) (total acc) \<and>
         ((foldl larger acc ts = acc \<and> (\<forall>t \<in> set ts. \<not> num_less (total acc) (total t))) \<or>
          (\<exists>i < length ts. ts ! i = foldl larger acc ts \<and>
             num_less (total acc) (total (foldl larger acc ts)) \<and>
             (\<forall>j < i. num_less (total (ts ! j)) (total (foldl larger acc ts)))))"
  using assms(1)
proof (induction ts rule: rev_induct)
  case Nil
  then show ?case
    by (simp add: assms(2) num_less_irrefl)
next
  case (snoc t ts)
  define r where "r = foldl larger acc ts"
  from snoc.prems have nn: "\<forall>x \<in> set ts. total x \<noteq> NaN" and tn: "total t \<noteq> NaN"
    by simp_all
  from snoc.IH [OF nn] have rn: "total r \<noteq> NaN"
    and mx: "\<forall>x \<in> set ts. \<not> num_less (total r) (total x)"
    and ra: "\<not> num_less (total r) (total acc)"
    and fst: "(r = acc \<and> (\<forall>x \<in> set ts. \<not> num_less (total acc) (total x))) \<or>
          (\<exists>i < length ts. ts ! i = r \<and> num_less (total acc) (total r) \<and>
             (\<forall>j < i. num_less (total (ts ! j)) (total r)))"
    unfolding r_def by simp_all
  show ?case
  proof (cases "num_less (total r) (total t)")
    case True
    then have eq: "foldl larger acc (ts @ [t]) = t"
      by (simp add: larger_def num_gt_def r_def)
    have below: "num_less (total x) (total t)" if "x \<in> set ts" for x
      using that mx nn rn True num_not_less_trans [of "total x" "total r" "total t"] by blast
    have "num_less (total acc) (total t)"
      using ra assms(2) rn True num_not_less_trans [of "total acc" "total r" "total t"] by blast
    moreover have "\<not> num_less (total t) (total x)" if "x \<in> set (ts @ [t])" for x
      using that below num_less_trans [of "total t" "total x" "total t"] num_less_irrefl [of "total t"]
      by auto
    moreover have "\<not> num_less (total t) (total acc)"
      using calculation(1) num_less_trans [of "total t" "total acc" "total t"]
        num_less_irrefl [of "total t"] by blast
    moreover have "\<forall>j < length ts. num_less (total ((ts @ [t]) ! j)) (total t)"
      using below by (simp add: nth_append)
    moreover have "(ts @ [t]) ! length ts = t"
      by simp
    ultimately show ?thesis
      unfolding eq using tn
      by (intro conjI ballI disjI2 exI [of _ "length ts"]) simp_all
  next
    case False
    then have eq: "foldl larger acc (ts @ [t]) = r"
      by (simp add: larger_def num_gt_def r_def)
    have mx': "\<forall>x \<in> set (ts @ [t]). \<not> num_less (total r) (total x)"
      using mx False by simp
    from fst have "(r = acc \<and> (\<forall>x \<in> set (ts @ [t]). \<not> num_less (total acc) (total x))) \<or>
          (\<exists>i < length (ts @ [t]). (ts @ [t]) ! i = r \<and> num_less (total acc) (total r) \<and>
             (\<forall>j < i. num_less (total ((ts @ [t]) ! j)) (total r)))"
    proof
      assume "r = acc \<and> (\<forall>x \<in> set ts. \<not> num_less (total acc) (total x))"
      then show ?thesis
        using False by auto
    next
      assume "\<exists>i < length ts. ts ! i = r \<and> num_less (total acc) (total r) \<and>
             (\<forall>j < i. num_less (total (ts ! j)) (total r))"
      then obtain i where i: "i < length ts" "ts ! i = r" "num_less (total acc) (total r)"
          "\<forall>j < i. num_less (total (ts ! j)) (total r)"
        by blast
      then have "i < length (ts @ [t]) \<and> (ts @ [t]) ! i = r \<and> num_less (total acc) (total r) \<and>
             (\<forall>j < i. num_less (total ((ts @ [t]) ! j)) (total r))"
        by (simp add: nth_append)
      then show ?thesis
        by blast
    qed
    with rn mx' ra show ?thesis
      unfolding eq by blast
  qed
qed

lemma topCategory_foldl:
  "topCategory ts = foldl larger \<lparr>total_category = Food, total = Fin 0\<rparr> ts"
  by (rule topCategory_def)

lemma totals_nonneg:
  assumes "\<forall>e \<in> set exps. num_le (Fin 0) (amount e)"
  shows "\<forall>t \<in> set (totalsByCategory exps). num_le (Fin 0) (total t)"
  using assms by (auto simp: totalsByCategory_def intro!: sumAmounts_nonneg)

lemma zero_of_nonneg: "num_le (Fin 0) x \<Longrightarrow> \<not> num_less (Fin 0) x \<Longrightarrow> x = Fin 0"
  by (auto simp: num_le_def)

lemma totalsByCategory_first:
  "totalsByCategory exps \<noteq> [] \<and>
   total_category (totalsByCategory exps ! 0) = Food \<and>
   totalsByCategory exps ! 0 \<in> set (totalsByCategory exps)"
  by (simp add: totalsByCategory_def CATEGORIES_def)

text \<open>
  \<^bold>\<open>C9.\<close> For a collection whose amounts are numbers not below 0 (as the invariant
  \<^verbatim>\<open>amount > 0\<close> of the records gives), \<^verbatim>\<open>topCategory\<close> of its totals is an entry of the
  totals, no total is greater than its total, and every entry before it in the
  enumeration's order has a smaller total: it is the first entry with the maximum total.
  When every total is 0 it is Food with total 0.
\<close>

theorem topCategory_first_maximum:
  assumes nonneg: "\<forall>e \<in> set exps. num_le (Fin 0) (amount e)"
  shows "(\<exists>i < length (totalsByCategory exps).
            totalsByCategory exps ! i = topCategory (totalsByCategory exps) \<and>
            (\<forall>j < i. num_less (total (totalsByCategory exps ! j))
                       (total (topCategory (totalsByCategory exps))))) \<and>
         (\<forall>t \<in> set (totalsByCategory exps).
            num_le (total t) (total (topCategory (totalsByCategory exps)))) \<and>
         ((\<forall>t \<in> set (totalsByCategory exps). total t = Fin 0) \<longrightarrow>
            topCategory (totalsByCategory exps) = \<lparr>total_category = Food, total = Fin 0\<rparr>)"
proof -
  define ts where "ts = totalsByCategory exps"
  define acc where "acc = \<lparr>total_category = Food, total = Fin 0\<rparr>"
  define r where "r = topCategory ts"
  have r: "r = foldl larger acc ts"
    by (simp add: r_def acc_def topCategory_foldl)
  have nn: "\<forall>t \<in> set ts. num_le (Fin 0) (total t)"
    unfolding ts_def using nonneg by (rule totals_nonneg)
  then have tn: "\<forall>t \<in> set ts. total t \<noteq> NaN"
    by (auto simp: num_le_def)
  have an: "total acc \<noteq> NaN" and a0: "total acc = Fin 0"
    by (simp_all add: acc_def)
  from top_fold [OF tn an] have rn: "total r \<noteq> NaN"
    and mx: "\<forall>t \<in> set ts. \<not> num_less (total r) (total t)"
    and fst: "(r = acc \<and> (\<forall>t \<in> set ts. \<not> num_less (total acc) (total t))) \<or>
          (\<exists>i < length ts. ts ! i = r \<and> num_less (total acc) (total r) \<and>
             (\<forall>j < i. num_less (total (ts ! j)) (total r)))"
    unfolding r by simp_all
  have first: "ts \<noteq> []" "total_category (ts ! 0) = Food" "ts ! 0 \<in> set ts"
    using totalsByCategory_first [of exps] by (simp_all add: ts_def)
  have max: "\<forall>t \<in> set ts. num_le (total t) (total r)"
    using mx tn rn by (simp add: num_le_iff_not_less)
  have idx: "\<exists>i < length ts. ts ! i = r \<and> (\<forall>j < i. num_less (total (ts ! j)) (total r))"
    using fst
  proof
    assume A: "r = acc \<and> (\<forall>t \<in> set ts. \<not> num_less (total acc) (total t))"
    with first(3) nn have "total (ts ! 0) = Fin 0"
      by (simp add: a0 zero_of_nonneg)
    with first(2) have "ts ! 0 = acc"
      by (simp add: acc_def)
    with A first(1) show ?thesis
      by (intro exI [of _ 0]) simp
  next
    assume "\<exists>i < length ts. ts ! i = r \<and> num_less (total acc) (total r) \<and>
             (\<forall>j < i. num_less (total (ts ! j)) (total r))"
    then show ?thesis
      by blast
  qed
  have zero: "r = acc" if z: "\<forall>t \<in> set ts. total t = Fin 0"
    using fst
  proof
    assume "r = acc \<and> (\<forall>t \<in> set ts. \<not> num_less (total acc) (total t))"
    then show ?thesis by simp
  next
    assume "\<exists>i < length ts. ts ! i = r \<and> num_less (total acc) (total r) \<and>
             (\<forall>j < i. num_less (total (ts ! j)) (total r))"
    then obtain i where "i < length ts" "ts ! i = r" "num_less (total acc) (total r)"
      by blast
    with z have False
      by (metis a0 nth_mem num_less_irrefl)
    then show ?thesis ..
  qed
  from idx max zero show ?thesis
    unfolding r_def ts_def acc_def by blast
qed

lemma top_scenario:
  "topCategory (totalsByCategory [coffee, bus]) = \<lparr>total_category = Food, total = Fin (9 / 2)\<rparr>"
  by code_simp

lemma top_empty:
  "topCategory (totalsByCategory []) = \<lparr>total_category = Food, total = Fin 0\<rparr>"
  by code_simp

text \<open>
  The scenario of the specification (Food 4.50 against Transportation 2.75: Food wins) and
  the empty collection.
\<close>

theorem topCategory_first_maximum_witness:
  "topCategory (totalsByCategory [coffee, bus]) = \<lparr>total_category = Food, total = Fin (9 / 2)\<rparr> \<and>
   totalsByCategory [coffee, bus] ! 0 = \<lparr>total_category = Food, total = Fin (9 / 2)\<rparr> \<and>
   totalsByCategory [coffee, bus] ! 1 = \<lparr>total_category = Transportation, total = Fin (11 / 4)\<rparr> \<and>
   topCategory (totalsByCategory []) = \<lparr>total_category = Food, total = Fin 0\<rparr>"
proof -
  have h: "\<forall>e \<in> set [coffee, bus]. num_le (Fin 0) (amount e)"
    by (simp add: coffee_def bus_def num_le_def)
  have h0: "\<forall>e \<in> set ([] :: Expense list). num_le (Fin 0) (amount e)"
    by simp
  have "totalsByCategory [coffee, bus] ! 0 = \<lparr>total_category = Food, total = Fin (9 / 2)\<rparr>"
    "totalsByCategory [coffee, bus] ! 1 = \<lparr>total_category = Transportation, total = Fin (11 / 4)\<rparr>"
    by code_simp+
  with topCategory_first_maximum [OF h] topCategory_first_maximum [OF h0] show ?thesis
    by (simp add: top_scenario top_empty)
qed

end
